theory Spec2Isabelle
  imports Main "HOL-Library.Word" "HOL-Library.Multiset"
begin

section \<open>Scalar types of the search core\<close>

text \<open>
  \<^verbatim>\<open>using Value = int;\<close> (thread.h, uci.h): a score is a 32-bit two's complement
  integer. Comparisons of scores are signed (\<open><s\<close>), negation wraps.
  \<^verbatim>\<open>int\<close> fields are 32-bit words as well, \<^verbatim>\<open>int64_t\<close> and \<^verbatim>\<open>uint64_t\<close> 64-bit words.

  \<^verbatim>\<open>Move\<close>, \<^verbatim>\<open>TimePoint\<close> and the constant \<^verbatim>\<open>VALUE_INFINITE\<close> are declared in
  types.h and misc.h, which are not among the sources. A move is a value of a type
  parameter \<open>'m\<close> compared by equality, a time point a value of a type parameter \<open>'t\<close>
  with a zero, and \<^verbatim>\<open>VALUE_INFINITE\<close> is a parameter of the constructor that reads it.
\<close>

type_synonym Value = "32 word"

text \<open>\<^verbatim>\<open>enum Color\<close> indexes the two-element arrays \<^verbatim>\<open>time[COLOR_NB]\<close>, \<^verbatim>\<open>inc[COLOR_NB]\<close>.\<close>

datatype Color = WHITE | BLACK

section \<open>RootMove (search.h)\<close>

text \<open>
  \<^verbatim>\<open>tbScore\<close> has no default member initialiser and the constructor does not set it:
  \<open>None\<close> is the indeterminate value it holds until something assigns it.
\<close>

record 'm RootMove =
  score :: Value
  previousScore :: Value
  averageScore :: Value
  uciScore :: Value
  scoreLowerbound :: bool
  scoreUpperbound :: bool
  selDepth :: "32 word"
  tbRank :: "32 word"
  tbScore :: "Value option"
  pv :: "'m list"

text \<open>
  \<^verbatim>\<open>explicit RootMove(Move m) : pv(1, m) {}\<close> together with the default member
  initialisers. \<^verbatim>\<open>pv(1, m)\<close> is the vector of one copy of \<open>m\<close>.
\<close>

definition RootMove_ctor :: "Value \<Rightarrow> 'm \<Rightarrow> 'm RootMove" where
  "RootMove_ctor VALUE_INFINITE m =
     \<lparr> score = - VALUE_INFINITE,
       previousScore = - VALUE_INFINITE,
       averageScore = - VALUE_INFINITE,
       uciScore = - VALUE_INFINITE,
       scoreLowerbound = False,
       scoreUpperbound = False,
       selDepth = 0,
       tbRank = 0,
       tbScore = None,
       pv = replicate 1 m \<rparr>"

text \<open>
  \<^verbatim>\<open>bool operator==(const Move& m) const { return pv[0] == m; }\<close>
  \<^verbatim>\<open>std::vector::operator[]\<close> does not check its index: on an empty \<open>pv\<close> the read is
  out of bounds and the behaviour undefined, which is the result \<open>None\<close>.
\<close>

definition RootMove_eq :: "'m RootMove \<Rightarrow> 'm \<Rightarrow> bool option" where
  "RootMove_eq this m =
     (if 0 < length (pv this) then Some (pv this ! 0 = m) else None)"

text \<open>
  \<^verbatim>\<open>bool operator<(const RootMove& m) const {
      return m.score != score ? m.score < score : m.previousScore < previousScore; }\<close>
\<close>

definition RootMove_less :: "'m RootMove \<Rightarrow> 'm RootMove \<Rightarrow> bool" where
  "RootMove_less this m =
     (if score m \<noteq> score this then score m <s score this
      else previousScore m <s previousScore this)"

text \<open>
  Modelled from the spec: the re-sorting of the root move list, which search.cpp (not
  among the sources) does after every iteration; section 4.2: "RootMove entries are
  re-sorted by the total order in section 3". The sort is a stable insertion sort by
  \<^verbatim>\<open>operator<\<close>: an element is placed in front of the first element that is not
  smaller than it, so elements that compare equivalent keep their relative order.
\<close>

fun insert_RootMove :: "'m RootMove \<Rightarrow> 'm RootMove list \<Rightarrow> 'm RootMove list" where
  "insert_RootMove x [] = [x]"
| "insert_RootMove x (y # ys) =
     (if RootMove_less y x then y # insert_RootMove x ys else x # y # ys)"

fun stable_sort_RootMoves :: "'m RootMove list \<Rightarrow> 'm RootMove list" where
  "stable_sort_RootMoves [] = []"
| "stable_sort_RootMoves (x # xs) = insert_RootMove x (stable_sort_RootMoves xs)"

text \<open>A list is in order when no element is smaller than one in front of it.\<close>

fun ordered_RootMoves :: "'m RootMove list \<Rightarrow> bool" where
  "ordered_RootMoves [] = True"
| "ordered_RootMoves (x # xs) =
     (list_all (\<lambda>y. \<not> RootMove_less y x) xs \<and> ordered_RootMoves xs)"

text \<open>The two fields \<^verbatim>\<open>operator<\<close> reads.\<close>

definition score_pair :: "'m RootMove \<Rightarrow> Value \<times> Value" where
  "score_pair rm = (score rm, previousScore rm)"

section \<open>LimitsType (search.h)\<close>

text \<open>
  \<^verbatim>\<open>std::vector<Move> searchmoves;
  TimePoint time[COLOR_NB], inc[COLOR_NB], npmsec, movetime, startTime;
  int       movestogo, depth, mate, perft, infinite;
  int64_t   nodes;\<close>
  The arrays are functions of the colour. The field \<^verbatim>\<open>infinite\<close> is \<open>infinite_flag\<close>
  here (\<open>infinite\<close> is HOL's word for a set that is not finite). \<open>startTime\<close> is an
  option: \<open>None\<close> is the indeterminate value of a field nothing has assigned yet.
\<close>

record ('m, 't) LimitsType =
  searchmoves :: "'m list"
  time :: "Color \<Rightarrow> 't"
  inc :: "Color \<Rightarrow> 't"
  npmsec :: 't
  movetime :: 't
  startTime :: "'t option"
  movestogo :: "32 word"
  depth :: "32 word"
  mate :: "32 word"
  perft :: "32 word"
  infinite_flag :: "32 word"
  nodes :: "64 word"

text \<open>
  \<^verbatim>\<open>LimitsType() {
      time[WHITE] = time[BLACK] = inc[WHITE] = inc[BLACK] = npmsec = movetime = TimePoint(0);
      movestogo = depth = mate = perft = infinite = 0;
      nodes = 0;
  }\<close>
  \<^verbatim>\<open>searchmoves\<close> is default-constructed, the empty vector; \<^verbatim>\<open>startTime\<close> is not
  mentioned.
\<close>

definition LimitsType_ctor :: "('m, 't::zero) LimitsType" where
  "LimitsType_ctor =
     \<lparr> searchmoves = [],
       time = (\<lambda>c. case c of WHITE \<Rightarrow> 0 | BLACK \<Rightarrow> 0),
       inc = (\<lambda>c. case c of WHITE \<Rightarrow> 0 | BLACK \<Rightarrow> 0),
       npmsec = 0,
       movetime = 0,
       startTime = None,
       movestogo = 0,
       depth = 0,
       mate = 0,
       perft = 0,
       infinite_flag = 0,
       nodes = 0 \<rparr>"

text \<open>The contextual conversion of an arithmetic value to \<^verbatim>\<open>bool\<close>: nonzero is true.\<close>

definition to_bool :: "'t::zero \<Rightarrow> bool" where
  "to_bool x = (x \<noteq> 0)"

text \<open>\<^verbatim>\<open>bool use_time_management() const { return time[WHITE] || time[BLACK]; }\<close>\<close>

definition use_time_management :: "('m, 't::zero) LimitsType \<Rightarrow> bool" where
  "use_time_management this = (to_bool (time this WHITE) \<or> to_bool (time this BLACK))"

section \<open>Thread and ThreadPool (thread.h)\<close>

text \<open>
  A \<^verbatim>\<open>Thread\<close> is a \<^verbatim>\<open>Search::Worker\<close> with an index and the flags of its idle loop.
  Of the worker's members the record has the three atomic counters
  (\<^verbatim>\<open>std::atomic<uint64_t> nodes, tbHits, bestMoveChanges\<close>) and the root move list;
  the counter \<^verbatim>\<open>nodes\<close> is \<open>nodes_counter\<close> here, \<open>nodes\<close> being the field of
  \<open>LimitsType\<close>. An atomic is the value a load of it returns.
\<close>

record 'm Thread =
  nodes_counter :: "64 word"
  tbHits :: "64 word"
  bestMoveChanges :: "64 word"
  rootMoves :: "'m RootMove list"
  idx :: "64 word"
  exit :: bool
  searching :: bool

text \<open>
  \<^verbatim>\<open>std::atomic_bool stop, increaseDepth;\<close> and \<^verbatim>\<open>std::vector<Thread*> threads;\<close>.
  The vector of pointers is the list of the threads pointed to.
\<close>

record 'm ThreadPool =
  stop :: bool
  increaseDepth :: bool
  threads :: "'m Thread list"

text \<open>
  \<^verbatim>\<open>uint64_t accumulate(std::atomic<uint64_t> Thread::*member) const {
      uint64_t sum = 0;
      for (Thread* th : threads)
          sum += (th->*member).load(std::memory_order_relaxed);
      return sum;
  }\<close>
  The loop is a left fold over the vector; \<open>+\<close> on \<open>64 word\<close> wraps as \<^verbatim>\<open>uint64_t\<close> does.
\<close>

definition accumulate :: "('m Thread \<Rightarrow> 64 word) \<Rightarrow> 'm ThreadPool \<Rightarrow> 64 word" where
  "accumulate member this = fold (\<lambda>th sum. sum + member th) (threads this) 0"

text \<open>
  \<^verbatim>\<open>uint64_t nodes_searched() const { return accumulate(&Thread::nodes); }
  uint64_t tb_hits() const { return accumulate(&Thread::tbHits); }\<close>
\<close>

definition nodes_searched :: "'m ThreadPool \<Rightarrow> 64 word" where
  "nodes_searched this = accumulate nodes_counter this"

definition tb_hits :: "'m ThreadPool \<Rightarrow> 64 word" where
  "tb_hits this = accumulate tbHits this"

section \<open>A search session and the stop flag\<close>

text \<open>
  Modelled from the spec: \<^verbatim>\<open>ThreadPool::start_thinking\<close>, which thread.h declares and
  thread.cpp (not among the sources) defines. Section 4.4: it "clears the stop flag,
  clones the position and its accompanying state history into every thread's root
  snapshot, assigns the RootMove list (optionally restricted to the caller's move subset
  - fails silently to no moves if the restriction excludes all legal moves), then
  signals every Thread to start". The position is given by the list of its legal moves;
  one RootMove is created per legal root move (section 3); the signal sets the thread's
  \<open>searching\<close> flag (section 4.3).
\<close>

definition root_move_list :: "Value \<Rightarrow> 'm list \<Rightarrow> 'm list \<Rightarrow> 'm RootMove list" where
  "root_move_list VALUE_INFINITE legal restriction =
     map (RootMove_ctor VALUE_INFINITE)
       (if restriction = [] then legal else filter (\<lambda>m. m \<in> set restriction) legal)"

definition start_thinking ::
  "Value \<Rightarrow> 'm list \<Rightarrow> ('m, 't) LimitsType \<Rightarrow> 'm ThreadPool \<Rightarrow> 'm ThreadPool" where
  "start_thinking VALUE_INFINITE legal limits this =
     this\<lparr> stop := False,
           threads :=
             map (\<lambda>th. th\<lparr> rootMoves :=
                              root_move_list VALUE_INFINITE legal (searchmoves limits),
                            searching := True \<rparr>)
                 (threads this) \<rparr>"

text \<open>
  Modelled from the spec: what happens to the pool between two calls of
  \<^verbatim>\<open>start_thinking\<close>; the code is in search.cpp and thread.cpp. Section 5: the stop flag
  is read by every thread at every node and "only the MainThread (or an external cancel
  request) writes it"; section 4.3: the main thread raises it when the budget is
  exceeded; section 4.1: a worker entering a node increments its node counter and
  checks the flag.
\<close>

definition raise_stop :: "'m ThreadPool \<Rightarrow> 'm ThreadPool" where
  "raise_stop this = this\<lparr> stop := True \<rparr>"

definition enter_node :: "nat \<Rightarrow> 'm ThreadPool \<Rightarrow> 'm ThreadPool" where
  "enter_node i this =
     (if i < length (threads this)
      then this\<lparr> threads := (threads this)
             [i := (threads this ! i)\<lparr> nodes_counter := nodes_counter (threads this ! i) + 1 \<rparr>] \<rparr>
      else this)"

datatype ('m, 't) event =
    Start_thinking "'m list" "('m, 't) LimitsType"
  | Raise_stop
  | Enter_node nat

fun is_Start_thinking :: "('m, 't) event \<Rightarrow> bool" where
  "is_Start_thinking (Start_thinking legal limits) = True"
| "is_Start_thinking Raise_stop = False"
| "is_Start_thinking (Enter_node i) = False"

fun step :: "Value \<Rightarrow> ('m, 't) event \<Rightarrow> 'm ThreadPool \<Rightarrow> 'm ThreadPool" where
  "step V (Start_thinking legal limits) this = start_thinking V legal limits this"
| "step V Raise_stop this = raise_stop this"
| "step V (Enter_node i) this = enter_node i this"

fun run :: "Value \<Rightarrow> ('m, 't) event list \<Rightarrow> 'm ThreadPool \<Rightarrow> 'm ThreadPool" where
  "run V [] this = this"
| "run V (e # es) this = run V es (step V e this)"

text \<open>The events of one session: none of them is the next \<^verbatim>\<open>start_thinking\<close>.\<close>

definition in_session :: "('m, 't) event list \<Rightarrow> bool" where
  "in_session es = list_all (\<lambda>e. \<not> is_Start_thinking e) es"

section \<open>Properties of the RootMove order\<close>

lemma RootMove_less_sint:
  "RootMove_less a b \<longleftrightarrow>
     sint (score b) < sint (score a)
     \<or> (sint (score b) = sint (score a)
        \<and> sint (previousScore b) < sint (previousScore a))"
  by (auto simp: RootMove_less_def word_sless_alt
           word_eq_iff_signed [where ?'a = int])

lemma RootMove_less_irrefl: "\<not> RootMove_less a a"
  by (simp add: RootMove_less_def)

lemma RootMove_less_trans:
  "RootMove_less a b \<Longrightarrow> RootMove_less b c \<Longrightarrow> RootMove_less a c"
  by (auto simp: RootMove_less_sint)

lemma RootMove_incomparable:
  "(\<not> RootMove_less a b \<and> \<not> RootMove_less b a) \<longleftrightarrow>
     (score a = score b \<and> previousScore a = previousScore b)"
proof -
  have "score a = score b \<longleftrightarrow> sint (score a) = sint (score b)"
    and "previousScore a = previousScore b
          \<longleftrightarrow> sint (previousScore a) = sint (previousScore b)"
    by (rule word_eq_iff_signed)+
  then show ?thesis
    unfolding RootMove_less_sint by linarith
qed

lemma RootMove_not_less_trans:
  "\<not> RootMove_less b a \<Longrightarrow> \<not> RootMove_less c b \<Longrightarrow> \<not> RootMove_less c a"
  by (auto simp: RootMove_less_sint)

lemma RootMove_less_not_less_trans:
  "RootMove_less a b \<Longrightarrow> \<not> RootMove_less c b \<Longrightarrow> \<not> RootMove_less c a"
  by (auto simp: RootMove_less_sint)

lemma set_insert_RootMove: "set (insert_RootMove x xs) = insert x (set xs)"
  by (induction xs) auto

lemma mset_insert_RootMove: "mset (insert_RootMove x xs) = add_mset x (mset xs)"
  by (induction xs) auto

lemma mset_stable_sort_RootMoves: "mset (stable_sort_RootMoves xs) = mset xs"
  by (induction xs) (auto simp: mset_insert_RootMove)

lemma ordered_insert_RootMove:
  "ordered_RootMoves xs \<Longrightarrow> ordered_RootMoves (insert_RootMove x xs)"
proof (induction xs)
  case Nil
  then show ?case by simp
next
  case (Cons y ys)
  show ?case
  proof (cases "RootMove_less y x")
    case True
    have "\<not> RootMove_less x y"
      using True RootMove_less_trans RootMove_less_irrefl by blast
    moreover have "list_all (\<lambda>z. \<not> RootMove_less z y) ys" and "ordered_RootMoves ys"
      using Cons.prems by simp_all
    ultimately show ?thesis
      using True Cons.IH
      by (simp add: list_all_iff set_insert_RootMove)
  next
    case False
    have "list_all (\<lambda>z. \<not> RootMove_less z y) ys"
      using Cons.prems by simp
    then have "list_all (\<lambda>z. \<not> RootMove_less z x) ys"
      using False RootMove_not_less_trans unfolding list_all_iff by blast
    then show ?thesis
      using False Cons.prems by simp
  qed
qed

lemma ordered_stable_sort_RootMoves: "ordered_RootMoves (stable_sort_RootMoves xs)"
  by (induction xs) (simp_all add: ordered_insert_RootMove)

lemma insert_RootMove_front:
  "list_all (\<lambda>y. \<not> RootMove_less y x) xs \<Longrightarrow> insert_RootMove x xs = x # xs"
  by (cases xs) simp_all

lemma stable_sort_ordered_id:
  "ordered_RootMoves xs \<Longrightarrow> stable_sort_RootMoves xs = xs"
  by (induction xs) (simp_all add: insert_RootMove_front)

lemma stable_sort_RootMoves_idem:
  "stable_sort_RootMoves (stable_sort_RootMoves xs) = stable_sort_RootMoves xs"
  by (rule stable_sort_ordered_id) (rule ordered_stable_sort_RootMoves)

lemma RootMove_less_score_pair:
  "score_pair a = score_pair a' \<Longrightarrow> score_pair b = score_pair b' \<Longrightarrow>
   RootMove_less a b = RootMove_less a' b'"
  by (simp add: score_pair_def RootMove_less_def)

lemma RootMove_incomparable_score_pair:
  "(\<not> RootMove_less a b \<and> \<not> RootMove_less b a) \<longleftrightarrow> score_pair a = score_pair b"
  by (simp add: RootMove_incomparable score_pair_def)

lemma filter_insert_RootMove:
  "filter (\<lambda>y. score_pair y = k) (insert_RootMove x xs) =
     (if score_pair x = k then x # filter (\<lambda>y. score_pair y = k) xs
      else filter (\<lambda>y. score_pair y = k) xs)"
proof (induction xs)
  case Nil
  then show ?case by simp
next
  case (Cons y ys)
  have "RootMove_less y x \<Longrightarrow> score_pair y \<noteq> score_pair x"
    using RootMove_incomparable_score_pair [of y x] by blast
  then show ?case
    using Cons.IH by auto
qed

lemma stable_sort_RootMoves_stable:
  "filter (\<lambda>y. score_pair y = k) (stable_sort_RootMoves xs)
     = filter (\<lambda>y. score_pair y = k) xs"
  by (induction xs) (simp_all add: filter_insert_RootMove)

lemma ordered_head_not_less:
  fixes y z :: "'m RootMove"
  assumes "ordered_RootMoves (z # zs)" and "score_pair y \<in> score_pair ` set (z # zs)"
  shows "\<not> RootMove_less y z"
proof -
  from assms(2) obtain z' where z': "z' \<in> set (z # zs)" and k: "score_pair z' = score_pair y"
    unfolding image_iff by metis
  have "\<not> RootMove_less z' z"
    using z' assms(1) by (auto simp: list_all_iff RootMove_less_irrefl)
  then show ?thesis
    using RootMove_less_score_pair [OF k, of z z] by simp
qed

lemma ordered_score_pairs_unique:
  fixes ys zs :: "'m RootMove list"
  shows "ordered_RootMoves ys \<Longrightarrow> ordered_RootMoves zs \<Longrightarrow>
   mset (map score_pair ys) = mset (map score_pair zs) \<Longrightarrow>
   map score_pair ys = map score_pair zs"
proof (induction ys arbitrary: zs)
  case Nil
  then show ?case by simp
next
  case (Cons y ys)
  then obtain z zs' where zs: "zs = z # zs'"
    by (cases zs) auto
  have sets: "score_pair ` set (y # ys) = score_pair ` set (z # zs')"
    using Cons.prems(3) zs by (metis mset_eq_setD set_map)
  have "\<not> RootMove_less y z"
    using ordered_head_not_less [of z zs' y] Cons.prems(2) zs sets by auto
  moreover have "\<not> RootMove_less z y"
    using ordered_head_not_less [of y ys z] Cons.prems(1) sets by auto
  ultimately have k: "score_pair y = score_pair z"
    using RootMove_incomparable_score_pair by blast
  then have "mset (map score_pair ys) = mset (map score_pair zs')"
    using Cons.prems(3) zs by simp
  moreover have "ordered_RootMoves ys" and "ordered_RootMoves zs'"
    using Cons.prems(1,2) zs by simp_all
  ultimately have "map score_pair ys = map score_pair zs'"
    using Cons.IH by blast
  then show ?case
    using k zs by simp
qed

lemma ordered_permutation_score_pairs:
  assumes "ordered_RootMoves zs" and "mset zs = mset xs"
  shows "map score_pair zs = map score_pair (stable_sort_RootMoves xs)"
proof -
  have "mset (map score_pair zs) = mset (map score_pair (stable_sort_RootMoves xs))"
    using assms(2) by (metis mset_map mset_stable_sort_RootMoves)
  then show ?thesis
    using assms(1) ordered_stable_sort_RootMoves ordered_score_pairs_unique by blast
qed

text \<open>
  Claim C1, as the code has it. \<^verbatim>\<open>operator<\<close> is irreflexive and transitive, and
  \<open>a < b\<close> holds exactly when \<open>a\<close> has the greater score, or the same score and the
  greater previous score (signed comparison): descending by score, ties broken by
  descending previous score. Two root moves are incomparable exactly when they agree on
  both scores, whatever their moves, so the order is total on the pairs of scores and a
  strict weak order on root moves. The stable sort returns an ordered permutation of
  the list, and sorting a second time changes nothing; any ordered permutation of the
  list shows the same sequence of score pairs.
\<close>

theorem RootMove_less_strict_weak_order:
  fixes a b c :: "'m RootMove"
  shows
  "\<not> RootMove_less a a
   \<and> (RootMove_less a b \<and> RootMove_less b c \<longrightarrow> RootMove_less a c)
   \<and> (RootMove_less a b \<longleftrightarrow>
        sint (score b) < sint (score a)
        \<or> (score b = score a \<and> sint (previousScore b) < sint (previousScore a)))
   \<and> ((\<not> RootMove_less a b \<and> \<not> RootMove_less b a) \<longleftrightarrow>
        (score a = score b \<and> previousScore a = previousScore b))
   \<and> ordered_RootMoves (stable_sort_RootMoves xs)
   \<and> mset (stable_sort_RootMoves xs) = mset xs
   \<and> stable_sort_RootMoves (stable_sort_RootMoves xs) = stable_sort_RootMoves xs
   \<and> (ordered_RootMoves zs \<and> mset zs = mset xs \<longrightarrow>
        map score_pair zs = map score_pair (stable_sort_RootMoves xs))"
proof -
  have "RootMove_less a b \<longleftrightarrow>
        sint (score b) < sint (score a)
        \<or> (score b = score a \<and> sint (previousScore b) < sint (previousScore a))"
    by (auto simp: RootMove_less_def word_sless_alt)
  moreover have "RootMove_less a b \<and> RootMove_less b c \<longrightarrow> RootMove_less a c"
    using RootMove_less_trans by blast
  moreover have "ordered_RootMoves zs \<and> mset zs = mset xs \<longrightarrow>
        map score_pair zs = map score_pair (stable_sort_RootMoves xs)"
    using ordered_permutation_score_pairs by blast
  ultimately show ?thesis
    using RootMove_less_irrefl [of a] RootMove_incomparable [of a b]
      ordered_stable_sort_RootMoves [of xs] mset_stable_sort_RootMoves [of xs]
      stable_sort_RootMoves_idem [of xs]
    by blast
qed

theorem RootMove_less_strict_weak_order_witness:
  "RootMove_less ((RootMove_ctor 32001 (1::16 word))\<lparr>score := 30\<rparr>)
                 ((RootMove_ctor 32001 2)\<lparr>score := 10, previousScore := 5\<rparr>)
   \<and> RootMove_less ((RootMove_ctor 32001 (2::16 word))\<lparr>score := 10, previousScore := 5\<rparr>)
                   ((RootMove_ctor 32001 3)\<lparr>score := 10, previousScore := - 7\<rparr>)
   \<and> RootMove_less ((RootMove_ctor 32001 (1::16 word))\<lparr>score := 30\<rparr>)
                   ((RootMove_ctor 32001 3)\<lparr>score := 10, previousScore := - 7\<rparr>)
   \<and> ordered_RootMoves
         [(RootMove_ctor 32001 (1::16 word))\<lparr>score := 30\<rparr>,
          (RootMove_ctor 32001 2)\<lparr>score := 10, previousScore := 5\<rparr>,
          (RootMove_ctor 32001 3)\<lparr>score := 10, previousScore := - 7\<rparr>]
   \<and> stable_sort_RootMoves
         [(RootMove_ctor 32001 (3::16 word))\<lparr>score := 10, previousScore := - 7\<rparr>,
          (RootMove_ctor 32001 1)\<lparr>score := 30\<rparr>,
          (RootMove_ctor 32001 2)\<lparr>score := 10, previousScore := 5\<rparr>]
       = [(RootMove_ctor 32001 1)\<lparr>score := 30\<rparr>,
          (RootMove_ctor 32001 2)\<lparr>score := 10, previousScore := 5\<rparr>,
          (RootMove_ctor 32001 3)\<lparr>score := 10, previousScore := - 7\<rparr>]
   \<and> map score_pair (stable_sort_RootMoves
         [(RootMove_ctor 32001 (3::16 word))\<lparr>score := 10, previousScore := - 7\<rparr>,
          (RootMove_ctor 32001 1)\<lparr>score := 30\<rparr>,
          (RootMove_ctor 32001 2)\<lparr>score := 10, previousScore := 5\<rparr>])
       = [(30, - 32001), (10, 5), (10, - 7)]"
proof -
  let ?a = "(RootMove_ctor 32001 (1::16 word))\<lparr>score := 30\<rparr>"
  let ?b = "(RootMove_ctor 32001 (2::16 word))\<lparr>score := 10, previousScore := 5\<rparr>"
  let ?c = "(RootMove_ctor 32001 (3::16 word))\<lparr>score := 10, previousScore := - 7\<rparr>"
  note inst = RootMove_less_strict_weak_order [of ?a ?b ?c "[?c, ?a, ?b]" "[?a, ?b, ?c]"]
  have ab: "RootMove_less ?a ?b" and bc: "RootMove_less ?b ?c"
    by (simp_all add: RootMove_less_def RootMove_ctor_def)
  have ac: "RootMove_less ?a ?c"
    using inst ab bc by blast
  have ord: "ordered_RootMoves [?a, ?b, ?c]"
    by (simp add: RootMove_less_def RootMove_ctor_def)
  have perm: "mset [?a, ?b, ?c] = mset [?c, ?a, ?b]"
    by (simp add: add_mset_commute)
  have srt: "stable_sort_RootMoves [?c, ?a, ?b] = [?a, ?b, ?c]"
    by (simp add: RootMove_less_def RootMove_ctor_def)
  have "map score_pair [?a, ?b, ?c] = map score_pair (stable_sort_RootMoves [?c, ?a, ?b])"
    using inst ord perm by blast
  then have keys: "map score_pair (stable_sort_RootMoves [?c, ?a, ?b])
                     = [(30, - 32001), (10, 5), (10, - 7)]"
    by (simp add: score_pair_def RootMove_ctor_def)
  from ab bc ac ord srt keys show ?thesis by blast
qed

text \<open>
  Claim C1 as it is written fails: the order is not total on root moves. The root
  moves constructed from two different moves are different, and neither is smaller
  than the other.
\<close>

theorem RootMove_less_total_counterexample:
  "RootMove_ctor 32001 (1::16 word) \<noteq> RootMove_ctor 32001 2
   \<and> \<not> RootMove_less (RootMove_ctor 32001 (1::16 word)) (RootMove_ctor 32001 2)
   \<and> \<not> RootMove_less (RootMove_ctor 32001 (2::16 word)) (RootMove_ctor 32001 1)"
  by (simp add: RootMove_less_def RootMove_ctor_def)

section \<open>Construction of a RootMove and comparison with a move\<close>

text \<open>
  Claim C8. The root move constructed from a move \<open>m\<close> has the principal variation
  \<open>[m]\<close>; its score, previous score, average score and UCI score are
  \<open>- VALUE_INFINITE\<close>; both bound flags are false; \<open>selDepth\<close> and \<open>tbRank\<close> are 0.
\<close>

theorem RootMove_ctor_fields:
  "pv (RootMove_ctor VALUE_INFINITE m) = [m]
   \<and> score (RootMove_ctor VALUE_INFINITE m) = - VALUE_INFINITE
   \<and> previousScore (RootMove_ctor VALUE_INFINITE m) = - VALUE_INFINITE
   \<and> averageScore (RootMove_ctor VALUE_INFINITE m) = - VALUE_INFINITE
   \<and> uciScore (RootMove_ctor VALUE_INFINITE m) = - VALUE_INFINITE
   \<and> scoreLowerbound (RootMove_ctor VALUE_INFINITE m) = False
   \<and> scoreUpperbound (RootMove_ctor VALUE_INFINITE m) = False
   \<and> selDepth (RootMove_ctor VALUE_INFINITE m) = 0
   \<and> tbRank (RootMove_ctor VALUE_INFINITE m) = 0"
  by (simp add: RootMove_ctor_def)

text \<open>
  Claim C9. On a root move with a non-empty principal variation, \<^verbatim>\<open>rm == m\<close> is
  defined and holds exactly when the first move of the variation is \<open>m\<close>; two root
  moves with the same first move give the same answer, whatever their scores and the
  rest of their variations. On an empty variation the read of \<^verbatim>\<open>pv[0]\<close> is out of
  bounds and the comparison has no defined result.
\<close>

theorem RootMove_eq_first_move:
  "(pv rm \<noteq> [] \<longrightarrow> RootMove_eq rm m = Some (hd (pv rm) = m))
   \<and> (pv rm \<noteq> [] \<and> pv rm' \<noteq> [] \<and> hd (pv rm') = hd (pv rm)
        \<longrightarrow> RootMove_eq rm' m = RootMove_eq rm m)
   \<and> (pv rm = [] \<longrightarrow> RootMove_eq rm m = None)"
  by (cases "pv rm"; cases "pv rm'") (simp_all add: RootMove_eq_def)

theorem RootMove_eq_first_move_witness:
  "RootMove_eq ((RootMove_ctor 32001 (7::16 word))\<lparr>pv := [7, 8, 9]\<rparr>) 7 = Some True
   \<and> RootMove_eq ((RootMove_ctor 32001 (7::16 word))\<lparr>pv := [7, 8, 9]\<rparr>) 8 = Some False
   \<and> RootMove_eq ((RootMove_ctor 32001 (7::16 word))\<lparr>score := 55, pv := [7, 1]\<rparr>) 7
       = RootMove_eq ((RootMove_ctor 32001 (7::16 word))\<lparr>pv := [7, 8, 9]\<rparr>) 7
   \<and> RootMove_eq ((RootMove_ctor 32001 (7::16 word))\<lparr>pv := []\<rparr>) 7 = None"
proof -
  let ?rm = "(RootMove_ctor 32001 (7::16 word))\<lparr>pv := [7, 8, 9]\<rparr>"
  let ?rm' = "(RootMove_ctor 32001 (7::16 word))\<lparr>score := 55, pv := [7, 1]\<rparr>"
  let ?e = "(RootMove_ctor 32001 (7::16 word))\<lparr>pv := []\<rparr>"
  have ne: "pv ?rm \<noteq> []" and ne': "pv ?rm' \<noteq> []" and hds: "hd (pv ?rm') = hd (pv ?rm)"
    and emp: "pv ?e = []"
    by simp_all
  have "RootMove_eq ?rm 7 = Some (hd (pv ?rm) = 7)"
    using RootMove_eq_first_move [of ?rm 7 ?rm'] ne by blast
  then have 1: "RootMove_eq ?rm 7 = Some True" by simp
  have "RootMove_eq ?rm 8 = Some (hd (pv ?rm) = 8)"
    using RootMove_eq_first_move [of ?rm 8 ?rm'] ne by blast
  then have 2: "RootMove_eq ?rm 8 = Some False" by simp
  have 3: "RootMove_eq ?rm' 7 = RootMove_eq ?rm 7"
    using RootMove_eq_first_move [of ?rm 7 ?rm'] ne ne' hds by blast
  have 4: "RootMove_eq ?e 7 = None"
    using RootMove_eq_first_move [of ?e 7 ?e] emp by blast
  from 1 2 3 4 show ?thesis by blast
qed

section \<open>Search limits\<close>

text \<open>
  Claim C3. \<^verbatim>\<open>use_time_management()\<close> is true exactly when the clock time of White
  or the clock time of Black is not zero.
\<close>

theorem use_time_management_iff:
  "use_time_management l \<longleftrightarrow> (time l WHITE \<noteq> 0 \<or> time l BLACK \<noteq> 0)"
  by (simp add: use_time_management_def to_bool_def)

theorem use_time_management_iff_witness:
  "use_time_management
     ((LimitsType_ctor :: (16 word, 64 word) LimitsType)
        \<lparr>time := (time LimitsType_ctor)(BLACK := 60000)\<rparr>)
   \<and> \<not> use_time_management
     ((LimitsType_ctor :: (16 word, 64 word) LimitsType)
        \<lparr>inc := (inc LimitsType_ctor)(BLACK := 1000), movetime := 500\<rparr>)"
  using use_time_management_iff
    [of "(LimitsType_ctor :: (16 word, 64 word) LimitsType)
           \<lparr>time := (time LimitsType_ctor)(BLACK := 60000)\<rparr>"]
    use_time_management_iff
    [of "(LimitsType_ctor :: (16 word, 64 word) LimitsType)
           \<lparr>inc := (inc LimitsType_ctor)(BLACK := 1000), movetime := 500\<rparr>"]
  by (simp add: LimitsType_ctor_def)

text \<open>
  Claim C10. A default-constructed \<open>LimitsType\<close> has both clock times, both
  increments, \<open>npmsec\<close> and \<open>movetime\<close> equal to 0, \<open>movestogo\<close>, \<open>depth\<close>, \<open>mate\<close>,
  \<open>perft\<close> and \<open>infinite\<close> equal to 0, \<open>nodes\<close> equal to 0 and no search moves;
  \<open>startTime\<close> is the one field left without a value; \<^verbatim>\<open>use_time_management()\<close> is
  false on it.
\<close>

theorem LimitsType_ctor_fields:
  "time (LimitsType_ctor :: ('m, 't::zero) LimitsType) WHITE = 0
   \<and> time (LimitsType_ctor :: ('m, 't) LimitsType) BLACK = 0
   \<and> inc (LimitsType_ctor :: ('m, 't) LimitsType) WHITE = 0
   \<and> inc (LimitsType_ctor :: ('m, 't) LimitsType) BLACK = 0
   \<and> npmsec (LimitsType_ctor :: ('m, 't) LimitsType) = 0
   \<and> movetime (LimitsType_ctor :: ('m, 't) LimitsType) = 0
   \<and> movestogo (LimitsType_ctor :: ('m, 't) LimitsType) = 0
   \<and> depth (LimitsType_ctor :: ('m, 't) LimitsType) = 0
   \<and> mate (LimitsType_ctor :: ('m, 't) LimitsType) = 0
   \<and> perft (LimitsType_ctor :: ('m, 't) LimitsType) = 0
   \<and> infinite_flag (LimitsType_ctor :: ('m, 't) LimitsType) = 0
   \<and> nodes (LimitsType_ctor :: ('m, 't) LimitsType) = 0
   \<and> searchmoves (LimitsType_ctor :: ('m, 't) LimitsType) = []
   \<and> startTime (LimitsType_ctor :: ('m, 't) LimitsType) = None
   \<and> use_time_management (LimitsType_ctor :: ('m, 't) LimitsType) = False"
  by (simp add: LimitsType_ctor_def use_time_management_def to_bool_def)

section \<open>Aggregation of the per-thread counters\<close>

lemma fold_add_sum_list:
  "fold (\<lambda>th sum. sum + f th) ths (a :: 64 word) = a + sum_list (map f ths)"
  by (induction ths arbitrary: a) (simp_all add: add.assoc)

lemma accumulate_sum_list: "accumulate member this = sum_list (map member (threads this))"
  by (simp add: accumulate_def fold_add_sum_list)

lemma unat_sum_list_64:
  "unat (sum_list (map f ths) :: 64 word) = sum_list (map (\<lambda>th. unat (f th)) ths) mod 2 ^ 64"
proof (induction ths)
  case Nil
  then show ?case by simp
next
  case (Cons th ths)
  have "unat (f th + sum_list (map f ths))
          = (unat (f th) + unat (sum_list (map f ths))) mod 2 ^ 64"
    by (simp add: unat_word_ariths)
  also have "\<dots> = (unat (f th) + sum_list (map (\<lambda>th. unat (f th)) ths) mod 2 ^ 64) mod 2 ^ 64"
    by (simp only: Cons.IH)
  also have "\<dots> = (unat (f th) + sum_list (map (\<lambda>th. unat (f th)) ths)) mod 2 ^ 64"
    by (rule mod_add_right_eq)
  finally show ?case by simp
qed

text \<open>
  Claim C4. \<^verbatim>\<open>nodes_searched()\<close> is the sum of the \<^verbatim>\<open>nodes\<close> counters of the threads
  of the pool and \<^verbatim>\<open>tb_hits()\<close> the sum of their \<^verbatim>\<open>tbHits\<close> counters, each counter
  read once, in \<^verbatim>\<open>uint64_t\<close> arithmetic: as numbers, the sum of the counters modulo
  \<open>2 ^ 64\<close>. No lock is taken; the pool is the values the loads return.
\<close>

theorem accumulate_counters:
  "nodes_searched this = sum_list (map nodes_counter (threads this))
   \<and> tb_hits this = sum_list (map tbHits (threads this))
   \<and> unat (nodes_searched this)
        = sum_list (map (\<lambda>th. unat (nodes_counter th)) (threads this)) mod 2 ^ 64
   \<and> unat (tb_hits this)
        = sum_list (map (\<lambda>th. unat (tbHits th)) (threads this)) mod 2 ^ 64"
  by (simp add: nodes_searched_def tb_hits_def accumulate_sum_list unat_sum_list_64)

text \<open>Two threads whose counters add up to \<open>2 ^ 64 + 1\<close>: the total wraps to 1.\<close>

lemma nodes_searched_wraps_example: "nodes_searched \<lparr>stop = False, increaseDepth = True, threads =
   [\<lparr>nodes_counter = 18446744073709551615, tbHits = 3, bestMoveChanges = 0, rootMoves = ([] :: 16 word RootMove list), idx = 0, exit = False, searching = True\<rparr>,
    \<lparr>nodes_counter = 2, tbHits = 4, bestMoveChanges = 0, rootMoves = [], idx = 1, exit = False, searching = True\<rparr>]\<rparr> = 1"
  by (simp add: nodes_searched_def accumulate_def)

section \<open>The stop flag within a session\<close>

lemma stop_enter_node: "stop (enter_node i this) = stop this"
  by (simp add: enter_node_def)

lemma stop_step_in_session:
  "\<not> is_Start_thinking e \<Longrightarrow> stop (step V e this) = (stop this \<or> e = Raise_stop)"
  by (cases e) (simp_all add: raise_stop_def stop_enter_node)

lemma stop_run_in_session:
  "in_session es \<Longrightarrow> stop (run V es this) = (stop this \<or> Raise_stop \<in> set es)"
proof (induction es arbitrary: this)
  case Nil
  then show ?case by simp
next
  case (Cons e es)
  then have "\<not> is_Start_thinking e" and "in_session es"
    by (simp_all add: in_session_def)
  then show ?case
    using Cons.IH [of "step V e this"] by (auto simp: stop_step_in_session)
qed

lemma run_append: "run V (es1 @ es2) this = run V es2 (run V es1 this)"
  by (induction es1 arbitrary: this) simp_all

lemma stop_start_thinking: "stop (start_thinking V legal limits this) = False"
  by (simp add: start_thinking_def)

text \<open>
  Claim C6. \<^verbatim>\<open>start_thinking\<close> leaves the stop flag false. During the session that
  follows, that is until the next \<^verbatim>\<open>start_thinking\<close>, the flag is true exactly when it
  has been raised: once true it stays true whatever happens next in the session, and a
  step that takes it from true to false is a \<^verbatim>\<open>start_thinking\<close>.
\<close>

theorem stop_monotone_in_session:
  "\<not> stop (start_thinking V legal limits this)
   \<and> (in_session es \<longrightarrow>
        stop (run V es (start_thinking V legal limits this)) = (Raise_stop \<in> set es))
   \<and> (in_session es2 \<and> stop (run V es1 this) \<longrightarrow> stop (run V (es1 @ es2) this))
   \<and> (stop this \<and> \<not> stop (step V e this) \<longrightarrow> is_Start_thinking e)"
proof -
  have "in_session es \<longrightarrow>
        stop (run V es (start_thinking V legal limits this)) = (Raise_stop \<in> set es)"
    by (simp add: stop_run_in_session stop_start_thinking)
  moreover have "in_session es2 \<and> stop (run V es1 this) \<longrightarrow> stop (run V (es1 @ es2) this)"
    by (simp add: run_append stop_run_in_session)
  moreover have "stop this \<and> \<not> stop (step V e this) \<longrightarrow> is_Start_thinking e"
    using stop_step_in_session [of e V this] by blast
  ultimately show ?thesis
    by (simp add: stop_start_thinking)
qed

theorem stop_monotone_in_session_witness:
  "in_session [Enter_node 0, Raise_stop, Enter_node 1 :: (16 word, 64 word) event]
   \<and> stop (run 32001 [Enter_node 0, Raise_stop, Enter_node 1 :: (16 word, 64 word) event]
        (start_thinking 32001 [1, 2, 3 :: 16 word]
           (LimitsType_ctor :: (16 word, 64 word) LimitsType)
           \<lparr>stop = True, increaseDepth = True,
            threads = [\<lparr>nodes_counter = 9, tbHits = 0, bestMoveChanges = 0, rootMoves = [],
                        idx = 0, exit = False, searching = False\<rparr>]\<rparr>))
   \<and> \<not> stop (run 32001 [Enter_node 0, Enter_node 0 :: (16 word, 64 word) event]
        (start_thinking 32001 [1, 2, 3 :: 16 word]
           (LimitsType_ctor :: (16 word, 64 word) LimitsType)
           \<lparr>stop = True, increaseDepth = True,
            threads = [\<lparr>nodes_counter = 9, tbHits = 0, bestMoveChanges = 0, rootMoves = [],
                        idx = 0, exit = False, searching = False\<rparr>]\<rparr>))
   \<and> is_Start_thinking
        (Start_thinking [1, 2, 3 :: 16 word] (LimitsType_ctor :: (16 word, 64 word) LimitsType))"
proof -
  let ?p = "\<lparr>stop = True, increaseDepth = True,
            threads = [\<lparr>nodes_counter = 9, tbHits = 0, bestMoveChanges = 0,
                        rootMoves = ([] :: 16 word RootMove list),
                        idx = 0, exit = False, searching = False\<rparr>]\<rparr>"
  let ?l = "LimitsType_ctor :: (16 word, 64 word) LimitsType"
  let ?es = "[Enter_node 0, Raise_stop, Enter_node 1 :: (16 word, 64 word) event]"
  let ?fs = "[Enter_node 0, Enter_node 0 :: (16 word, 64 word) event]"
  let ?e = "Start_thinking [1, 2, 3 :: 16 word] ?l"
  have s1: "in_session ?es" and s2: "in_session ?fs"
    by (simp_all add: in_session_def)
  have r1: "Raise_stop \<in> set ?es" and r2: "Raise_stop \<notin> set ?fs"
    by simp_all
  have a: "stop (run 32001 ?es (start_thinking 32001 [1, 2, 3] ?l ?p))"
    using stop_monotone_in_session [of 32001 "[1, 2, 3]" ?l ?p ?es "[]" "[]" ?e] s1 r1
    by blast
  have b: "\<not> stop (run 32001 ?fs (start_thinking 32001 [1, 2, 3] ?l ?p))"
    using stop_monotone_in_session [of 32001 "[1, 2, 3]" ?l ?p ?fs "[]" "[]" ?e] s2 r2
    by blast
  have c1: "stop ?p" by simp
  have c2: "\<not> stop (step 32001 ?e ?p)" by (simp add: start_thinking_def)
  have c: "is_Start_thinking ?e"
    using stop_monotone_in_session [of 32001 "[1, 2, 3]" ?l ?p ?es "[]" "[]" ?e] c1 c2
    by blast
  from s1 a b c show ?thesis by blast
qed

end
